theory Spec2Isabelle
  imports Complex_Main "HOL-Library.Multiset" "HOL-Library.List_Lexorder" "HOL-Library.Char_ord"
begin

section \<open>Data model of coffee_analysis.py\<close>

text \<open>
  The script works on pandas tables. A table is modelled as the list of its rows, a row as
  a record of the columns the script reads. A field of the file can be empty, and pandas
  reads it as a missing value: the columns \<open>transaction_id\<close> and \<open>product_category\<close>
  are options for that reason, and so are the two weather columns (the archive may answer
  null for a day, and the left join leaves both empty for a date without weather);
  \<open>None\<close> stands for pandas' NaN. The other columns are taken as complete. Dates are
  day numbers, and the \<open>date\<close> and \<open>hour\<close> columns are taken as already parsed
  (lines 7 and 8).

  Numbers are exact reals. The script computes with binary floating point, whose sums
  depend on rounding and on the order of the additions; the statements proved about the
  claims are chosen so that they do not depend on either.
\<close>

record transaction =
  transaction_id :: "nat option"
  store_location :: string
  date :: int
  hour :: nat
  transaction_qty :: int
  unit_price :: real
  product_category :: "string option"
  product_detail :: string

record weather =
  w_date :: int
  w_temperature :: "real option"
  w_rain :: "real option"

record enriched = transaction +
  temperature :: "real option"
  rain :: "real option"

text \<open>Line 9: \<open>df['revenue'] = df['transaction_qty'] * df['unit_price']\<close>.\<close>

definition revenue :: "'a transaction_scheme \<Rightarrow> real" where
  "revenue r = of_int (transaction_qty r) * unit_price r"

section \<open>Grouped sums\<close>

text \<open>
  \<open>df.groupby(key)[col].sum()\<close> yields one entry per distinct key, in ascending key order
  (\<open>sort=True\<close> is the default of groupby), holding the sum of the column over the rows
  of that key.
\<close>

definition group_keys :: "('r \<Rightarrow> 'k::linorder) \<Rightarrow> 'r list \<Rightarrow> 'k list" where
  "group_keys key rows = sort (remdups (map key rows))"

definition group_rows :: "('r \<Rightarrow> 'k) \<Rightarrow> 'k \<Rightarrow> 'r list \<Rightarrow> 'r list" where
  "group_rows key k rows = filter (\<lambda>r. key r = k) rows"

definition groupby_sum :: "('r \<Rightarrow> 'k::linorder) \<Rightarrow> ('r \<Rightarrow> real) \<Rightarrow> 'r list \<Rightarrow> ('k \<times> real) list" where
  "groupby_sum key col rows =
     map (\<lambda>k. (k, sum_list (map col (group_rows key k rows)))) (group_keys key rows)"


text \<open>
  On a column with missing values groupby leaves out the rows whose key is missing
  (\<open>dropna=True\<close> is its default): they belong to no group.
\<close>

definition present :: "'a option list \<Rightarrow> 'a list" where
  "present vs = concat (map (\<lambda>v. case v of None \<Rightarrow> [] | Some a \<Rightarrow> [a]) vs)"



text \<open>\<open>Series.sum()\<close> of a grouped series: the sum of its values.\<close>

definition series_sum :: "('k \<times> real) list \<Rightarrow> real" where
  "series_sum s = sum_list (map snd s)"

text \<open>Line 40: \<open>df['revenue'].sum()\<close>.\<close>

definition total_revenue :: "enriched list \<Rightarrow> real" where
  "total_revenue df = sum_list (map revenue df)"



definition by_hour :: "enriched list \<Rightarrow> (nat \<times> real) list" where
  "by_hour df = groupby_sum hour revenue df"

text \<open>
  Lines 70 to 72 slice the grouped series with \<open>by_hour[7:12]\<close>, \<open>by_hour[12:18]\<close> and
  \<open>by_hour[18:]\<close>. A slice with integer bounds inside \<open>Series[...]\<close> selects by position,
  also on an integer index: entries number 7 to 11 of the series, counted from 0.
\<close>

definition slice_pos :: "nat \<Rightarrow> nat \<Rightarrow> 'a list \<Rightarrow> 'a list" where
  "slice_pos a b xs = take (b - a) (drop a xs)"

definition morning :: "enriched list \<Rightarrow> real" where
  "morning df = series_sum (slice_pos 7 12 (by_hour df))"

definition afternoon :: "enriched list \<Rightarrow> real" where
  "afternoon df = series_sum (slice_pos 12 18 (by_hour df))"

definition evening :: "enriched list \<Rightarrow> real" where
  "evening df = series_sum (drop 18 (by_hour df))"

text \<open>The revenue of the rows whose hour lies in \<open>[a, b)\<close>, as the report's labels read.\<close>

definition revenue_between :: "nat \<Rightarrow> nat \<Rightarrow> enriched list \<Rightarrow> real" where
  "revenue_between a b df = sum_list (map revenue (filter (\<lambda>r. a \<le> hour r \<and> hour r < b) df))"

definition revenue_from :: "nat \<Rightarrow> enriched list \<Rightarrow> real" where
  "revenue_from a df = sum_list (map revenue (filter (\<lambda>r. a \<le> hour r) df))"

section \<open>Top products\<close>




section \<open>Left join with the weather table\<close>

text \<open>Line 6: the rows of one store.\<close>

definition filter_store :: "transaction list \<Rightarrow> transaction list" where
  "filter_store raw = filter (\<lambda>t. store_location t = ''Lower Manhattan'') raw"

definition enrich :: "transaction \<Rightarrow> real option \<Rightarrow> real option \<Rightarrow> enriched" where
  "enrich t tp rn =
     \<lparr>transaction_id = transaction_id t, store_location = store_location t, date = date t,
      hour = hour t, transaction_qty = transaction_qty t, unit_price = unit_price t,
      product_category = product_category t, product_detail = product_detail t,
      temperature = tp, rain = rn\<rparr>"

definition base :: "enriched \<Rightarrow> transaction" where
  "base e =
     \<lparr>transaction_id = transaction_id e, store_location = store_location e, date = date e,
      hour = hour e, transaction_qty = transaction_qty e, unit_price = unit_price e,
      product_category = product_category e, product_detail = product_detail e\<rparr>"

text \<open>
  Line 31: \<open>df.merge(weather_df, on='date', how='left')\<close>. Every left row is kept, in the
  order of the left table; it is paired with each weather row of its date, in the order of
  the weather table, and with empty weather fields when there is none.
\<close>

definition matches :: "weather list \<Rightarrow> transaction \<Rightarrow> weather list" where
  "matches ws t = filter (\<lambda>w. w_date w = date t) ws"

definition merge_left :: "transaction list \<Rightarrow> weather list \<Rightarrow> enriched list" where
  "merge_left ts ws =
     concat (map (\<lambda>t. case matches ws t of
                         [] \<Rightarrow> [enrich t None None]
                       | w # ms \<Rightarrow> map (\<lambda>w. enrich t (w_temperature w) (w_rain w)) (w # ms)) ts)"

text \<open>What one transaction receives when its date has at most one weather row.\<close>

definition enrich_single :: "weather list \<Rightarrow> transaction \<Rightarrow> enriched" where
  "enrich_single ws t =
     (case find (\<lambda>w. w_date w = date t) ws of
        None \<Rightarrow> enrich t None None
      | Some w \<Rightarrow> enrich t (w_temperature w) (w_rain w))"

section \<open>Daily summary\<close>

record daily_summary =
  d_date :: int
  d_revenue :: real
  d_temperature :: "real option"
  d_rain :: "real option"
  d_transactions :: nat

text \<open>The aggregation \<open>'first'\<close> takes the first value of the group that is not missing.\<close>

fun first_valid :: "'a option list \<Rightarrow> 'a option" where
  "first_valid [] = None"
| "first_valid (None # vs) = first_valid vs"
| "first_valid (Some v # vs) = Some v"

text \<open>
  Lines 76 to 82. \<open>'count'\<close> counts the entries of \<open>transaction_id\<close> that are not
  missing, not the rows of the group.
\<close>

definition daily_row :: "enriched list \<Rightarrow> int \<Rightarrow> daily_summary" where
  "daily_row df d =
     (let g = group_rows date d df in
      \<lparr>d_date = d,
       d_revenue = sum_list (map revenue g),
       d_temperature = first_valid (map temperature g),
       d_rain = first_valid (map rain g),
       d_transactions = length (filter (\<lambda>r. transaction_id r \<noteq> None) g)\<rparr>)"

definition daily :: "enriched list \<Rightarrow> daily_summary list" where
  "daily df = map (daily_row df) (group_keys date df)"

text \<open>
  The first value of a column that is not missing, said directly: skip the missing values
  in front and take the next one, if any.
\<close>

definition is_first_non_null :: "'a option list \<Rightarrow> 'a option \<Rightarrow> bool" where
  "is_first_non_null vs v = (v = (case dropWhile (\<lambda>x. x = None) vs of [] \<Rightarrow> None | x # _ \<Rightarrow> x))"

section \<open>Floating-point results\<close>

text \<open>
  The scalars the report computes are numpy floats. Besides a number they can be NaN
  (the mean of no rows, \<open>0/0\<close>) or an infinity (a non-zero number divided by zero): numpy
  does not raise on either. The sign of a zero is not modelled.
\<close>

datatype flt = Fin real | PInf | NInf | NaN

fun fsub :: "flt \<Rightarrow> flt \<Rightarrow> flt" where
  "fsub (Fin a) (Fin b) = Fin (a - b)"
| "fsub NaN _ = NaN"
| "fsub _ NaN = NaN"
| "fsub PInf PInf = NaN"
| "fsub NInf NInf = NaN"
| "fsub PInf _ = PInf"
| "fsub NInf _ = NInf"
| "fsub (Fin a) PInf = NInf"
| "fsub (Fin a) NInf = PInf"

text \<open>The infinity with the sign of a number, and NaN for zero.\<close>

definition signed_inf :: "real \<Rightarrow> flt" where
  "signed_inf a = (if 0 < a then PInf else if a < 0 then NInf else NaN)"

fun fmul :: "flt \<Rightarrow> flt \<Rightarrow> flt" where
  "fmul (Fin a) (Fin b) = Fin (a * b)"
| "fmul NaN _ = NaN"
| "fmul _ NaN = NaN"
| "fmul PInf (Fin b) = signed_inf b"
| "fmul NInf (Fin b) = signed_inf (- b)"
| "fmul (Fin a) PInf = signed_inf a"
| "fmul (Fin a) NInf = signed_inf (- a)"
| "fmul PInf PInf = PInf"
| "fmul NInf NInf = PInf"
| "fmul PInf NInf = NInf"
| "fmul NInf PInf = NInf"

fun fdiv :: "flt \<Rightarrow> flt \<Rightarrow> flt" where
  "fdiv (Fin a) (Fin b) = (if b = 0 then signed_inf a else Fin (a / b))"
| "fdiv NaN _ = NaN"
| "fdiv _ NaN = NaN"
| "fdiv (Fin a) _ = Fin 0"
| "fdiv PInf (Fin b) = (if 0 \<le> b then PInf else NInf)"
| "fdiv NInf (Fin b) = (if 0 \<le> b then NInf else PInf)"
| "fdiv _ _ = NaN"

fun fabs :: "flt \<Rightarrow> flt" where
  "fabs (Fin a) = Fin \<bar>a\<bar>"
| "fabs NaN = NaN"
| "fabs _ = PInf"

fun fsqrt :: "flt \<Rightarrow> flt" where
  "fsqrt (Fin a) = (if a < 0 then NaN else Fin (sqrt a))"
| "fsqrt PInf = PInf"
| "fsqrt _ = NaN"

text \<open>\<open>a < b\<close> on floats: false as soon as one side is NaN.\<close>

fun fless :: "flt \<Rightarrow> flt \<Rightarrow> bool" where
  "fless (Fin a) (Fin b) = (a < b)"
| "fless NaN _ = False"
| "fless _ NaN = False"
| "fless _ NInf = False"
| "fless NInf _ = True"
| "fless PInf _ = False"
| "fless (Fin a) PInf = True"

text \<open>\<open>np.clip(c, -1, 1)\<close>; NaN stays NaN.\<close>

fun fclip :: "flt \<Rightarrow> flt" where
  "fclip (Fin a) = Fin (max (- 1) (min 1 a))"
| "fclip PInf = Fin 1"
| "fclip NInf = Fin (- 1)"
| "fclip NaN = NaN"

text \<open>\<open>Series.mean()\<close> of a column without missing values: NaN when there is no row.\<close>

definition series_mean :: "real list \<Rightarrow> flt" where
  "series_mean xs = (if xs = [] then NaN else Fin (sum_list xs / real (length xs)))"

section \<open>Pearson correlation\<close>

text \<open>
  Lines 84 and 85: \<open>daily['revenue'].corr(daily[col])\<close>. pandas keeps the days on which
  both values are present, answers NaN when none is left, and otherwise returns entry
  \<open>[0, 1]\<close> of \<open>np.corrcoef\<close>: the covariance matrix (deviations from the mean, their
  products summed and multiplied by \<open>1 / (n - 1)\<close>), divided by the square roots of its
  diagonal, first by the one of the row, then by the one of the column, and clipped to
  \<open>[-1, 1]\<close>.

  With exact numbers a constant series has deviations 0 and the result is NaN. In floating
  point the mean of a constant series need not be its value (the mean of three times 0.1
  is not 0.1), and the result can be a small number instead. What is stated about the
  claims holds in both cases: it rests on the clipping and on the comparisons, not on
  which series come out as NaN.
\<close>

definition valid_pairs :: "(daily_summary \<Rightarrow> real option) \<Rightarrow> daily_summary list \<Rightarrow> (real \<times> real) list" where
  "valid_pairs col ds =
     concat (map (\<lambda>d. case col d of None \<Rightarrow> [] | Some v \<Rightarrow> [(d_revenue d, v)]) ds)"

definition avg :: "real list \<Rightarrow> real" where
  "avg xs = sum_list xs / real (length xs)"

definition dev_prod :: "real list \<Rightarrow> real list \<Rightarrow> real" where
  "dev_prod xs ys = sum_list (map2 (\<lambda>x y. (x - avg xs) * (y - avg ys)) xs ys)"

definition cov :: "real list \<Rightarrow> real list \<Rightarrow> flt" where
  "cov xs ys = fmul (Fin (dev_prod xs ys)) (fdiv (Fin 1) (Fin (max 0 (real (length xs) - 1))))"

definition corrcoef :: "real list \<Rightarrow> real list \<Rightarrow> flt" where
  "corrcoef xs ys =
     fclip (fdiv (fdiv (cov xs ys) (fsqrt (cov xs xs))) (fsqrt (cov ys ys)))"

definition pearson :: "(real \<times> real) list \<Rightarrow> flt" where
  "pearson ps = (if ps = [] then NaN else corrcoef (map fst ps) (map snd ps))"

definition corr :: "(daily_summary \<Rightarrow> real option) \<Rightarrow> daily_summary list \<Rightarrow> flt" where
  "corr col ds = pearson (valid_pairs col ds)"

text \<open>A series is constant when it holds at most one distinct value.\<close>

definition constant_series :: "real list \<Rightarrow> bool" where
  "constant_series xs = (length (remdups xs) \<le> 1)"

section \<open>Formatting\<close>

text \<open>
  \<open>f"{x:.3f}"\<close>: NaN and the infinities print as words; a number is rounded to three
  decimals, ties to the even neighbour, with a minus sign for every negative number.
\<close>

fun digits :: "nat \<Rightarrow> string" where
  "digits n = (if n < 10 then [''0123456789'' ! n]
               else digits (n div 10) @ [''0123456789'' ! (n mod 10)])"

definition round_half_even :: "real \<Rightarrow> int" where
  "round_half_even x =
     (let f = \<lfloor>x\<rfloor>; d = x - of_int f in
      if d < 1 / 2 then f else if 1 / 2 < d then f + 1 else if even f then f else f + 1)"

definition fmt3 :: "flt \<Rightarrow> string" where
  "fmt3 x = (case x of
       NaN \<Rightarrow> ''nan''
     | PInf \<Rightarrow> ''inf''
     | NInf \<Rightarrow> ''-inf''
     | Fin a \<Rightarrow>
         (let m = nat (round_half_even (\<bar>a\<bar> * 1000)); fr = digits (m mod 1000) in
          (if a < 0 then ''-'' else []) @ digits (m div 1000) @ ''.''
            @ replicate (3 - length fr) (CHR ''0'') @ fr))"



section \<open>Classification of the correlations\<close>

text \<open>A comparison of a column with a number is false on a missing value.\<close>

definition col_less :: "real option \<Rightarrow> real \<Rightarrow> bool" where
  "col_less v c = (case v of None \<Rightarrow> False | Some a \<Rightarrow> a < c)"

definition col_greater :: "real option \<Rightarrow> real \<Rightarrow> bool" where
  "col_greater v c = (case v of None \<Rightarrow> False | Some a \<Rightarrow> c < a)"

definition col_equal :: "real option \<Rightarrow> real \<Rightarrow> bool" where
  "col_equal v c = (case v of None \<Rightarrow> False | Some a \<Rightarrow> a = c)"

text \<open>Lines 90 and 91.\<close>

definition temp_cold :: "daily_summary list \<Rightarrow> flt" where
  "temp_cold ds = series_mean (map d_revenue (filter (\<lambda>d. col_less (d_temperature d) 40) ds))"

definition temp_warm :: "daily_summary list \<Rightarrow> flt" where
  "temp_warm ds = series_mean (map d_revenue (filter (\<lambda>d. col_greater (d_temperature d) 70) ds))"

text \<open>
  Lines 88 to 98. The strong case carries the four numbers it prints: the cold mean, the
  warm mean, the difference and the percentage.
\<close>

datatype temp_class = Strong flt flt flt flt | Moderate | Weak

definition temperature_report :: "daily_summary list \<Rightarrow> temp_class" where
  "temperature_report ds =
     (let correlation_temp = corr d_temperature ds in
      if fless (Fin (7 / 10)) correlation_temp then
        Strong (temp_cold ds) (temp_warm ds)
          (fsub (temp_warm ds) (temp_cold ds))
          (fmul (fsub (fdiv (temp_warm ds) (temp_cold ds)) (Fin 1)) (Fin 100))
      else if fless (Fin (3 / 10)) correlation_temp then Moderate
      else Weak)"

text \<open>Lines 103 and 104.\<close>

definition rainy :: "daily_summary list \<Rightarrow> flt" where
  "rainy ds = series_mean (map d_revenue (filter (\<lambda>d. col_greater (d_rain d) 0) ds))"

definition no_rain :: "daily_summary list \<Rightarrow> flt" where
  "no_rain ds = series_mean (map d_revenue (filter (\<lambda>d. col_equal (d_rain d) 0) ds))"

text \<open>
  Lines 101 to 111. The weak case carries the three numbers it prints: the rainy mean, the
  clear mean and the difference.
\<close>

datatype rain_class = Rain_Weak flt flt flt | Rain_Negative | Rain_Positive

definition rain_report :: "daily_summary list \<Rightarrow> rain_class" where
  "rain_report ds =
     (let correlation_rain = corr d_rain ds in
      if fless (fabs correlation_rain) (Fin (2 / 10)) then
        Rain_Weak (rainy ds) (no_rain ds) (fabs (fsub (no_rain ds) (rainy ds)))
      else if fless correlation_rain (Fin 0) then Rain_Negative
      else Rain_Positive)"

text \<open>Line 115: \<open>daily['rain'].max()\<close>, the largest value that is not missing.\<close>

definition rainiest_day :: "daily_summary list \<Rightarrow> flt" where
  "rainiest_day ds =
     (case present (map d_rain ds) of [] \<Rightarrow> NaN | a # as \<Rightarrow> Fin (fold max as a))"

text \<open>Line 116: \<open>(daily['rain'] > 0).sum()\<close>.\<close>

definition days_with_rain :: "daily_summary list \<Rightarrow> nat" where
  "days_with_rain ds = length (filter (\<lambda>d. col_greater (d_rain d) 0) ds)"

section \<open>Sample tables\<close>

definition sale :: "int \<Rightarrow> nat \<Rightarrow> string \<Rightarrow> string \<Rightarrow> int \<Rightarrow> real \<Rightarrow> enriched" where
  "sale d h c p q u =
     \<lparr>transaction_id = Some 0, store_location = ''Lower Manhattan'', date = d, hour = h,
      transaction_qty = q, unit_price = u, product_category = Some c, product_detail = p,
      temperature = None, rain = None\<rparr>"

definition day :: "int \<Rightarrow> real \<Rightarrow> real option \<Rightarrow> real option \<Rightarrow> daily_summary" where
  "day d r t rn = \<lparr>d_date = d, d_revenue = r, d_temperature = t, d_rain = rn, d_transactions = 1\<rparr>"

definition two_sales :: "enriched list" where
  "two_sales = [sale 1 7 ''Coffee'' ''Latte'' 1 3, sale 1 18 ''Tea'' ''Chai'' 1 5]"


definition second_id_missing :: "enriched list" where
  "second_id_missing =
     [sale 1 8 ''Coffee'' ''Latte'' 2 3, (sale 1 9 ''Tea'' ''Chai'' 1 5)\<lparr>transaction_id := None\<rparr>]"

definition hours_6_to_13 :: "enriched list" where
  "hours_6_to_13 = map (\<lambda>h. sale 0 h ''Coffee'' ''Latte'' 1 (real h)) [6, 7, 8, 9, 10, 11, 12, 13]"

definition purchase :: "int \<Rightarrow> transaction" where
  "purchase d =
     \<lparr>transaction_id = Some 0, store_location = ''Lower Manhattan'', date = d, hour = 8,
      transaction_qty = 1, unit_price = 3, product_category = Some ''Coffee'',
      product_detail = ''Latte''\<rparr>"

definition weather_on :: "int \<Rightarrow> real \<Rightarrow> real \<Rightarrow> weather" where
  "weather_on d t r = \<lparr>w_date = d, w_temperature = Some t, w_rain = Some r\<rparr>"


definition flat_revenue :: "daily_summary list" where
  "flat_revenue = [day 1 10 (Some 50) (Some 0), day 2 10 (Some 60) (Some 1)]"

definition steady_rise :: "daily_summary list" where
  "steady_rise = [day 1 100 (Some 35) (Some 0), day 2 300 (Some 55) (Some 1), day 3 500 (Some 75) (Some 2)]"

definition mild :: "daily_summary list" where
  "mild = [day 1 10 (Some 50) (Some 2), day 2 0 (Some 60) (Some 1), day 3 20 (Some 70) (Some 0)]"

definition peak :: "daily_summary list" where
  "peak = [day 1 0 (Some 50) (Some 0), day 2 30 (Some 60) (Some 1), day 3 0 (Some 70) (Some 2)]"

definition warm_below_cold :: "daily_summary list" where
  "warm_below_cold =
     [day 1 6 (Some 39) None, day 2 4 (Some 71) None, day 3 0 (Some 40) None,
      day 4 0 (Some 40) None, day 5 10 (Some 70) None, day 6 10 (Some 70) None]"

section \<open>Facts about grouped sums\<close>

lemma group_keys_distinct: "distinct (group_keys key rows)"
  by (simp add: group_keys_def)

lemma group_keys_set: "set (group_keys key rows) = key ` set rows"
  by (simp add: group_keys_def)

lemma group_keys_sorted: "sorted (group_keys key rows)"
  by (simp add: group_keys_def)

lemma sum_filter_disj:
  fixes g :: "'r \<Rightarrow> real"
  assumes "\<And>x. x \<in> set xs \<Longrightarrow> \<not> (P x \<and> Q x)"
  shows "sum_list (map g (filter P xs)) + sum_list (map g (filter Q xs))
         = sum_list (map g (filter (\<lambda>x. P x \<or> Q x) xs))"
  using assms by (induction xs) auto

lemma sum_groups:
  fixes g :: "'r \<Rightarrow> real"
  assumes "distinct ks"
  shows "sum_list (map (\<lambda>k. sum_list (map g (group_rows key k xs))) ks)
         = sum_list (map g (filter (\<lambda>x. key x \<in> set ks) xs))"
  using assms
proof (induction ks)
  case Nil
  then show ?case by simp
next
  case (Cons k ks)
  have "sum_list (map g (filter (\<lambda>x. key x = k) xs))
        + sum_list (map g (filter (\<lambda>x. key x \<in> set ks) xs))
        = sum_list (map g (filter (\<lambda>x. key x = k \<or> key x \<in> set ks) xs))"
    using Cons.prems by (intro sum_filter_disj) auto
  with Cons show ?case by (simp add: group_rows_def)
qed

text \<open>
  Were the additions exact, the sums of the groups would add up to the sum of the column.
\<close>

lemma groupby_sum_total:
  "series_sum (groupby_sum key col rows) = sum_list (map col rows)"
proof -
  have "series_sum (groupby_sum key col rows)
        = sum_list (map (\<lambda>k. sum_list (map col (group_rows key k rows))) (group_keys key rows))"
    by (simp add: series_sum_def groupby_sum_def comp_def)
  also have "\<dots> = sum_list (map col (filter (\<lambda>x. key x \<in> set (group_keys key rows)) rows))"
    by (rule sum_groups) (rule group_keys_distinct)
  also have "filter (\<lambda>x. key x \<in> set (group_keys key rows)) rows = rows"
    by (simp add: group_keys_set)
  finally show ?thesis .
qed

section \<open>Category, hour and total\<close>










section \<open>The three day-part sums\<close>

text \<open>
  C1. The report labels the three sums 7-11am, 12-5pm and 6pm+, and the claim reads them
  as the revenue of the hours \<open>[7, 12)\<close>, \<open>[12, 18)\<close> and \<open>[18, 24)\<close>. The code slices
  the per-hour series by position. On the scenario of the specification, one sale of 3 at
  7 o'clock and one of 5 at 18 o'clock, the series has two entries, every slice is empty
  and the three sums are 0, while the morning hours hold 3, the evening hours 5 and the
  total revenue is 8.
\<close>

theorem day_parts_sliced_by_position:
  "by_hour two_sales = [(7, 3), (18, 5)]
   \<and> morning two_sales = 0 \<and> afternoon two_sales = 0 \<and> evening two_sales = 0
   \<and> revenue_between 7 12 two_sales = 3 \<and> revenue_between 12 18 two_sales = 0
   \<and> revenue_from 18 two_sales = 5 \<and> total_revenue two_sales = 8"
proof -
  have b: "by_hour two_sales = [(7, 3), (18, 5)]"
    by (simp add: two_sales_def by_hour_def groupby_sum_def group_keys_def group_rows_def
        sale_def revenue_def)
  have s: "morning two_sales = 0 \<and> afternoon two_sales = 0 \<and> evening two_sales = 0"
    by (simp add: morning_def afternoon_def evening_def b slice_pos_def series_sum_def)
  have r: "revenue_between 7 12 two_sales = 3 \<and> revenue_between 12 18 two_sales = 0
           \<and> revenue_from 18 two_sales = 5 \<and> total_revenue two_sales = 8"
    by (simp add: two_sales_def revenue_between_def revenue_from_def total_revenue_def
        sale_def revenue_def)
  show ?thesis using b s r by simp
qed

text \<open>
  A sale before 7 o'clock belongs to no day part, whichever way the series is sliced: on
  a table whose only row is a sale of 5 at 6 o'clock the three sums are 0 and the total
  revenue is 5.
\<close>

lemma no_day_part_before_seven:
  "morning [sale 0 6 ''Coffee'' ''Latte'' 1 5]
   + afternoon [sale 0 6 ''Coffee'' ''Latte'' 1 5]
   + evening [sale 0 6 ''Coffee'' ''Latte'' 1 5]
   \<noteq> total_revenue [sale 0 6 ''Coffee'' ''Latte'' 1 5]"
  by (simp add: morning_def afternoon_def evening_def total_revenue_def by_hour_def
      groupby_sum_def group_keys_def group_rows_def slice_pos_def series_sum_def sale_def revenue_def)

text \<open>
  Where the hours present do not start at 0 the slices do not follow the hours. With one
  row in each hour from 6 to 13, of revenue equal to its hour, the series has eight
  entries; entry number 7 is the hour 13, and it alone makes the morning sum, while the
  hours 7 to 11 hold 45.
\<close>

lemma morning_slice_is_positional:
  "morning hours_6_to_13 = 13 \<and> revenue_between 7 12 hours_6_to_13 = 45"
proof -
  have b: "by_hour hours_6_to_13
           = [(6, 6), (7, 7), (8, 8), (9, 9), (10, 10), (11, 11), (12, 12), (13, 13)]"
    by (simp add: hours_6_to_13_def by_hour_def groupby_sum_def group_keys_def group_rows_def
        sale_def revenue_def)
  have m: "morning hours_6_to_13 = 13"
    by (simp add: morning_def b slice_pos_def series_sum_def)
  have r: "revenue_between 7 12 hours_6_to_13 = 45"
    by (simp add: hours_6_to_13_def revenue_between_def sale_def revenue_def)
  show ?thesis using m r by simp
qed

section \<open>The left join\<close>

lemma base_enrich: "base (enrich t a b) = t"
  by (simp add: base_def enrich_def)

lemma matches_distinct:
  assumes "distinct (map w_date ws)"
  shows "matches ws t = (case find (\<lambda>w. w_date w = date t) ws of None \<Rightarrow> [] | Some w \<Rightarrow> [w])"
  using assms
proof (induction ws)
  case Nil
  then show ?case by (simp add: matches_def)
next
  case (Cons w ws)
  show ?case
  proof (cases "w_date w = date t")
    case True
    then have "filter (\<lambda>w. w_date w = date t) ws = []"
      using Cons.prems by (auto simp: filter_empty_conv image_iff)
    with True show ?thesis by (simp add: matches_def)
  next
    case False
    with Cons show ?thesis by (simp add: matches_def)
  qed
qed

lemma merge_left_single:
  assumes "distinct (map w_date ws)"
  shows "merge_left ts ws = map (enrich_single ws) ts"
proof -
  have "\<And>t. (case matches ws t of [] \<Rightarrow> [enrich t None None]
               | w # ms \<Rightarrow> map (\<lambda>w. enrich t (w_temperature w) (w_rain w)) (w # ms))
            = [enrich_single ws t]"
    by (simp add: matches_distinct[OF assms] enrich_single_def split: option.split)
  then show ?thesis by (simp add: merge_left_def)
qed

lemma base_enrich_single: "base (enrich_single ws t) = t"
  by (simp add: enrich_single_def base_enrich split: option.split)

lemma merge_left_length:
  "length (merge_left ts ws) = sum_list (map (\<lambda>t. max 1 (length (matches ws t))) ts)"
  by (induction ts) (auto simp: merge_left_def split: list.split)

lemma sum_list_max1_ge:
  "length ts \<le> sum_list (map (\<lambda>t. max 1 (f t)) ts)"
  by (induction ts) auto

lemma merge_left_more:
  assumes "t \<in> set ts" and "2 \<le> length (matches ws t)"
  shows "length ts < length (merge_left ts ws)"
proof -
  have "length ts < sum_list (map (\<lambda>t. max 1 (length (matches ws t))) ts)"
    using assms
  proof (induction ts)
    case Nil
    then show ?case by simp
  next
    case (Cons a ts)
    show ?case
    proof (cases "a = t")
      case True
      then show ?thesis
        using Cons.prems(2) sum_list_max1_ge[of ts "\<lambda>t. length (matches ws t)"] by simp
    next
      case False
      with Cons have "length ts < sum_list (map (\<lambda>t. max 1 (length (matches ws t))) ts)" by simp
      then show ?thesis by simp
    qed
  qed
  then show ?thesis by (simp add: merge_left_length)
qed

text \<open>
  C9, as the code has it. If the dates of the weather table are distinct, the join keeps the
  number and the order of the transaction rows, each with the weather fields of its date
  or with empty ones. In general every transaction row appears once per weather row of its
  date (once when there is none), and the enriched table has more rows than the
  transaction table as soon as one transaction falls on a date with two weather rows.
\<close>

theorem left_join_rows:
  "(distinct (map w_date ws) \<longrightarrow>
      merge_left ts ws = map (enrich_single ws) ts \<and> map base (merge_left ts ws) = ts
      \<and> length (merge_left ts ws) = length ts)
   \<and> length (merge_left ts ws) = sum_list (map (\<lambda>t. max 1 (length (matches ws t))) ts)
   \<and> ((\<exists>t \<in> set ts. 2 \<le> length (matches ws t)) \<longrightarrow> length ts < length (merge_left ts ws))"
proof (intro conjI impI)
  assume d: "distinct (map w_date ws)"
  show "merge_left ts ws = map (enrich_single ws) ts" by (rule merge_left_single[OF d])
  then show "map base (merge_left ts ws) = ts" by (simp add: comp_def base_enrich_single)
  show "length (merge_left ts ws) = length ts" by (simp add: merge_left_single[OF d])
next
  show "length (merge_left ts ws) = sum_list (map (\<lambda>t. max 1 (length (matches ws t))) ts)"
    by (rule merge_left_length)
next
  assume "\<exists>t \<in> set ts. 2 \<le> length (matches ws t)"
  then show "length ts < length (merge_left ts ws)" using merge_left_more by blast
qed

text \<open>
  Three purchases against two days of weather, one purchase on a day without weather; and
  two purchases against a weather table that holds day 1 twice.
\<close>

theorem left_join_rows_witness:
  "distinct (map w_date [weather_on 1 50 0, weather_on 2 60 1])
   \<and> merge_left [purchase 2, purchase 3, purchase 1] [weather_on 1 50 0, weather_on 2 60 1]
     = [enrich (purchase 2) (Some 60) (Some 1), enrich (purchase 3) None None,
        enrich (purchase 1) (Some 50) (Some 0)]
   \<and> (\<exists>t \<in> set [purchase 1, purchase 2]. 2 \<le> length (matches [weather_on 1 50 0, weather_on 1 55 2] t))
   \<and> length [purchase 1, purchase 2] < length (merge_left [purchase 1, purchase 2] [weather_on 1 50 0, weather_on 1 55 2])"
proof -
  have d: "distinct (map w_date [weather_on 1 50 0, weather_on 2 60 1])"
    by (simp add: weather_on_def)
  have e: "\<exists>t \<in> set [purchase 1, purchase 2]. 2 \<le> length (matches [weather_on 1 50 0, weather_on 1 55 2] t)"
    by (simp add: matches_def weather_on_def purchase_def)
  have m: "map (enrich_single [weather_on 1 50 0, weather_on 2 60 1]) [purchase 2, purchase 3, purchase 1]
     = [enrich (purchase 2) (Some 60) (Some 1), enrich (purchase 3) None None,
        enrich (purchase 1) (Some 50) (Some 0)]"
    by (simp add: enrich_single_def weather_on_def purchase_def)
  show ?thesis
    using d e m
      left_join_rows[of "[weather_on 1 50 0, weather_on 2 60 1]" "[purchase 2, purchase 3, purchase 1]"]
      left_join_rows[of "[weather_on 1 50 0, weather_on 1 55 2]" "[purchase 1, purchase 2]"]
    by simp
qed

text \<open>
  C9 as stated fails when the duplicated weather date carries no transaction: day 1 is
  there twice, the only purchase is on day 2, and the enriched table has one row as the
  transaction table has.
\<close>

theorem duplicate_weather_without_sales:
  "\<not> distinct (map w_date [weather_on 1 50 0, weather_on 1 55 2])
   \<and> length (merge_left [purchase 2] [weather_on 1 50 0, weather_on 1 55 2]) = length [purchase 2]"
  by (simp add: merge_left_def matches_def weather_on_def purchase_def)


section \<open>The daily summary\<close>

lemma filter_eq_distinct: "distinct ks \<Longrightarrow> d \<in> set ks \<Longrightarrow> filter (\<lambda>k. k = d) ks = [d]"
  by (induction ks) (auto simp: filter_empty_conv)

lemma daily_row_date: "d_date (daily_row df d) = d"
  by (simp add: daily_row_def Let_def)

lemma daily_one_row:
  assumes "d \<in> date ` set df"
  shows "filter (\<lambda>s. d_date s = d) (daily df) = [daily_row df d]"
proof -
  have "filter (\<lambda>s. d_date s = d) (daily df) = map (daily_row df) (filter (\<lambda>k. k = d) (group_keys date df))"
    by (simp add: daily_def filter_map comp_def daily_row_date)
  also have "filter (\<lambda>k. k = d) (group_keys date df) = [d]"
    by (rule filter_eq_distinct) (use assms in \<open>simp_all add: group_keys_distinct group_keys_set\<close>)
  finally show ?thesis by simp
qed

lemma first_valid_is_first: "is_first_non_null vs (first_valid vs)"
  by (induction vs rule: first_valid.induct) (simp_all add: is_first_non_null_def)

text \<open>
  The row of a date in general: its count is the number of rows of that date that have a
  transaction id, its revenue the sum of the revenues of all rows of that date, its
  temperature and its rain the first value of that date that is not missing.
\<close>

lemma daily_row_fields:
  "\<forall>d \<in> date ` set df.
     \<exists>s. filter (\<lambda>s. d_date s = d) (daily df) = [s]
       \<and> d_transactions s = length (filter (\<lambda>r. date r = d \<and> transaction_id r \<noteq> None) df)
       \<and> d_revenue s = sum_list (map revenue (filter (\<lambda>r. date r = d) df))
       \<and> is_first_non_null (map temperature (filter (\<lambda>r. date r = d) df)) (d_temperature s)
       \<and> is_first_non_null (map rain (filter (\<lambda>r. date r = d) df)) (d_rain s)"
proof
  fix d assume d: "d \<in> date ` set df"
  have f: "filter (\<lambda>r. transaction_id r \<noteq> None) (filter (\<lambda>r. date r = d) df)
           = filter (\<lambda>r. date r = d \<and> transaction_id r \<noteq> None) df"
    by (simp add: conj_commute)
  show "\<exists>s. filter (\<lambda>s. d_date s = d) (daily df) = [s]
       \<and> d_transactions s = length (filter (\<lambda>r. date r = d \<and> transaction_id r \<noteq> None) df)
       \<and> d_revenue s = sum_list (map revenue (filter (\<lambda>r. date r = d) df))
       \<and> is_first_non_null (map temperature (filter (\<lambda>r. date r = d) df)) (d_temperature s)
       \<and> is_first_non_null (map rain (filter (\<lambda>r. date r = d) df)) (d_rain s)"
    by (rule exI[of _ "daily_row df d"])
       (simp add: daily_one_row[OF d] daily_row_def Let_def group_rows_def first_valid_is_first f)
qed

text \<open>
  C7. The claim takes the transaction count of a date for the number of its rows, as the
  per-hour count of line 65 is (\<open>size()\<close>). Line 80 counts the transaction ids that are
  not missing instead. On two sales of one date, 2 at 3 and 1 at 5, the second without
  an id, the summary has one row with revenue 11 and a transaction count of 1, while the
  date has 2 rows.
\<close>

theorem daily_counts_ids_not_rows:
  "map d_date (daily second_id_missing) = [1]
   \<and> map d_revenue (daily second_id_missing) = [11]
   \<and> map d_transactions (daily second_id_missing) = [1]
   \<and> length (filter (\<lambda>r. date r = 1) second_id_missing) = 2"
  by (simp add: second_id_missing_def daily_def daily_row_def Let_def group_keys_def
      group_rows_def sale_def revenue_def)

section \<open>Days without a rain value\<close>

text \<open>
  C8. A day whose rain field is missing counts in none of the rain statistics: with or
  without it, the rainy-day mean, the clear-day mean, the number of days with rain, the
  rain correlation, the largest rainfall and the whole rain classification are the same.
\<close>

theorem missing_rain_days_ignored:
  assumes "d_rain d = None"
  shows "rainy (xs @ d # ys) = rainy (xs @ ys)
       \<and> no_rain (xs @ d # ys) = no_rain (xs @ ys)
       \<and> days_with_rain (xs @ d # ys) = days_with_rain (xs @ ys)
       \<and> corr d_rain (xs @ d # ys) = corr d_rain (xs @ ys)
       \<and> rainiest_day (xs @ d # ys) = rainiest_day (xs @ ys)
       \<and> rain_report (xs @ d # ys) = rain_report (xs @ ys)"
proof -
  have r: "rainy (xs @ d # ys) = rainy (xs @ ys)"
    using assms by (simp add: rainy_def col_greater_def)
  have n: "no_rain (xs @ d # ys) = no_rain (xs @ ys)"
    using assms by (simp add: no_rain_def col_equal_def)
  have c: "corr d_rain (xs @ d # ys) = corr d_rain (xs @ ys)"
    using assms by (simp add: corr_def valid_pairs_def)
  have w: "days_with_rain (xs @ d # ys) = days_with_rain (xs @ ys)"
    using assms by (simp add: days_with_rain_def col_greater_def)
  have m: "rainiest_day (xs @ d # ys) = rainiest_day (xs @ ys)"
    using assms by (simp add: rainiest_day_def present_def)
  show ?thesis using r n c w m by (simp add: rain_report_def Let_def)
qed


text \<open>A day without rain value between a clear day and a rainy one.\<close>

theorem missing_rain_days_ignored_witness:
  "d_rain (day 2 30 (Some 50) None) = None
   \<and> rainy ([day 1 10 (Some 40) (Some 0)] @ day 2 30 (Some 50) None # [day 3 20 (Some 60) (Some 1)]) = Fin 20
   \<and> no_rain ([day 1 10 (Some 40) (Some 0)] @ day 2 30 (Some 50) None # [day 3 20 (Some 60) (Some 1)]) = Fin 10
   \<and> days_with_rain ([day 1 10 (Some 40) (Some 0)] @ day 2 30 (Some 50) None # [day 3 20 (Some 60) (Some 1)]) = 1"
proof -
  have h: "d_rain (day 2 30 (Some 50) None) = None" by (simp add: day_def)
  have r: "rainy ([day 1 10 (Some 40) (Some 0)] @ [day 3 20 (Some 60) (Some 1)]) = Fin 20"
    by (simp add: rainy_def day_def col_greater_def series_mean_def)
  have n: "no_rain ([day 1 10 (Some 40) (Some 0)] @ [day 3 20 (Some 60) (Some 1)]) = Fin 10"
    by (simp add: no_rain_def day_def col_equal_def series_mean_def)
  have w: "days_with_rain ([day 1 10 (Some 40) (Some 0)] @ [day 3 20 (Some 60) (Some 1)]) = 1"
    by (simp add: days_with_rain_def day_def col_greater_def)
  show ?thesis
    using h r n w
      missing_rain_days_ignored[OF h, of "[day 1 10 (Some 40) (Some 0)]" "[day 3 20 (Some 60) (Some 1)]"]
    by simp
qed

section \<open>The five best-selling products\<close>












section \<open>Facts about the correlation\<close>

lemma map2_same: "map2 f xs xs = map (\<lambda>x. f x x) xs"
  by (induction xs) auto

lemma dev_prod_self: "dev_prod xs xs = sum_list (map (\<lambda>x. (x - avg xs) * (x - avg xs)) xs)"
  by (simp add: dev_prod_def map2_same)

lemma dev_prod_self_nonneg: "0 \<le> dev_prod xs xs"
  unfolding dev_prod_self by (rule sum_list_nonneg) auto

lemma dev_prod_self_zero_iff: "dev_prod xs xs = 0 \<longleftrightarrow> (\<forall>x \<in> set xs. x = avg xs)"
proof -
  have "sum_list (map (\<lambda>x. (x - avg xs) * (x - avg xs)) xs) = 0
        \<longleftrightarrow> (\<forall>v \<in> set (map (\<lambda>x. (x - avg xs) * (x - avg xs)) xs). v = 0)"
    by (rule sum_list_nonneg_eq_0_iff) auto
  then show ?thesis by (auto simp: dev_prod_self)
qed

lemma constant_series_iff: "constant_series xs \<longleftrightarrow> (\<forall>x \<in> set xs. \<forall>y \<in> set xs. x = y)"
proof -
  have "length (remdups xs) = card (set xs)" by (simp add: length_remdups_card_conv)
  then show ?thesis
    using card_le_Suc0_iff_eq[of "set xs"] by (simp add: constant_series_def)
qed

lemma sum_list_all_equal:
  fixes c :: real
  shows "\<forall>x \<in> set xs. x = c \<Longrightarrow> sum_list xs = real (length xs) * c"
  by (induction xs) (auto simp: algebra_simps)

lemma constant_series_avg: "constant_series xs \<longleftrightarrow> (\<forall>x \<in> set xs. x = avg xs)"
proof
  assume c: "constant_series xs"
  show "\<forall>x \<in> set xs. x = avg xs"
  proof
    fix x assume x: "x \<in> set xs"
    then have "\<forall>y \<in> set xs. y = x" using c by (auto simp: constant_series_iff)
    then have "sum_list xs = real (length xs) * x" by (rule sum_list_all_equal)
    moreover have "xs \<noteq> []" using x by auto
    ultimately show "x = avg xs" by (simp add: avg_def)
  qed
next
  assume "\<forall>x \<in> set xs. x = avg xs"
  then show "constant_series xs" unfolding constant_series_iff by metis
qed

lemma dev_prod_zero_iff_constant: "dev_prod xs xs = 0 \<longleftrightarrow> constant_series xs"
  by (simp add: dev_prod_self_zero_iff constant_series_avg)

lemma sum_list_zero_terms:
  fixes f :: "'a \<Rightarrow> real"
  shows "\<forall>z \<in> set zs. f z = 0 \<Longrightarrow> sum_list (map f zs) = 0"
  by (induction zs) auto

lemma dev_prod_constant_left: "constant_series xs \<Longrightarrow> dev_prod xs ys = 0"
  unfolding dev_prod_def constant_series_avg
  by (rule sum_list_zero_terms) (auto dest: set_zip_leftD)

lemma dev_prod_constant_right: "constant_series ys \<Longrightarrow> dev_prod xs ys = 0"
  unfolding dev_prod_def constant_series_avg
  by (rule sum_list_zero_terms) (auto dest: set_zip_rightD)

lemma not_constant_length: "\<not> constant_series xs \<Longrightarrow> 2 \<le> length xs"
  using length_remdups_leq[of xs] unfolding constant_series_def by linarith

lemma cov_fin:
  assumes "2 \<le> length xs"
  shows "cov xs ys = Fin (dev_prod xs ys * (1 / (real (length xs) - 1)))"
  using assms by (simp add: cov_def)

lemma cov_single:
  assumes "length xs = 1" "length ys = 1"
  shows "cov xs ys = NaN"
proof -
  have "constant_series xs" using assms(1) length_remdups_leq[of xs] by (simp add: constant_series_def)
  then have "dev_prod xs ys = 0" by (rule dev_prod_constant_left)
  then show ?thesis using assms by (simp add: cov_def signed_inf_def)
qed

lemma corrcoef_nondegenerate:
  assumes n: "2 \<le> length xs" "length ys = length xs"
    and a: "0 < dev_prod xs xs" and b: "0 < dev_prod ys ys"
  shows "corrcoef xs ys
         = Fin (max (- 1) (min 1 (dev_prod xs ys / sqrt (dev_prod xs xs * dev_prod ys ys))))"
proof -
  define k where "k = 1 / (real (length xs) - 1)"
  have k: "0 < k" using n by (simp add: k_def)
  have sa: "0 < sqrt (dev_prod xs xs * k)" using a k by simp
  have sb: "0 < sqrt (dev_prod ys ys * k)" using b k by simp
  have "sqrt (dev_prod xs xs * k) * sqrt (dev_prod ys ys * k)
        = sqrt (dev_prod xs xs * dev_prod ys ys) * k"
  proof -
    have "sqrt (dev_prod xs xs * k) * sqrt (dev_prod ys ys * k)
          = sqrt ((dev_prod xs xs * dev_prod ys ys) * (k * k))"
      by (simp add: real_sqrt_mult[symmetric] algebra_simps)
    also have "\<dots> = sqrt (dev_prod xs xs * dev_prod ys ys) * k"
      using k by (simp add: real_sqrt_mult)
    finally show ?thesis .
  qed
  then have q: "dev_prod xs ys * k / sqrt (dev_prod xs xs * k) / sqrt (dev_prod ys ys * k)
        = dev_prod xs ys / sqrt (dev_prod xs xs * dev_prod ys ys)"
    using k by (simp add: divide_divide_eq_left del: real_sqrt_mult)
  have c1: "cov xs ys = Fin (dev_prod xs ys * k)" using n by (simp add: cov_fin k_def)
  have c2: "cov xs xs = Fin (dev_prod xs xs * k)" using n by (simp add: cov_fin k_def)
  have c3: "cov ys ys = Fin (dev_prod ys ys * k)" using n by (simp add: cov_fin k_def)
  have "corrcoef xs ys = Fin (max (- 1) (min 1
      (dev_prod xs ys * k / sqrt (dev_prod xs xs * k) / sqrt (dev_prod ys ys * k))))"
    unfolding corrcoef_def c1 c2 c3 using sa sb a b k
    by (simp add: not_less mult_nonneg_nonneg less_imp_le del: real_sqrt_mult real_sqrt_gt_0_iff)
  then show ?thesis by (simp only: q)
qed

lemma corrcoef_degenerate:
  assumes n: "xs \<noteq> []" "length ys = length xs"
    and c: "constant_series xs \<or> constant_series ys"
  shows "corrcoef xs ys = NaN"
proof (cases "length xs = 1")
  case True
  then have "cov xs ys = NaN" using n by (simp add: cov_single)
  then show ?thesis by (simp add: corrcoef_def)
next
  case False
  moreover have "0 < length xs" using n(1) by simp
  ultimately have n2: "2 \<le> length xs" by linarith
  define k where "k = 1 / (real (length xs) - 1)"
  have k: "0 < k" using n2 by (simp add: k_def)
  have z: "dev_prod xs ys = 0" using c dev_prod_constant_left dev_prod_constant_right by blast
  have c1: "cov xs ys = Fin 0" using n2 z by (simp add: cov_fin)
  have c2: "cov xs xs = Fin (dev_prod xs xs * k)" using n2 by (simp add: cov_fin k_def)
  have c3: "cov ys ys = Fin (dev_prod ys ys * k)" using n2 n by (simp add: cov_fin k_def)
  have nn: "0 \<le> dev_prod xs xs * k" "0 \<le> dev_prod ys ys * k"
    using k dev_prod_self_nonneg[of xs] dev_prod_self_nonneg[of ys] by simp_all
  show ?thesis
  proof (cases "constant_series ys")
    case True
    then have "dev_prod ys ys = 0" by (simp add: dev_prod_zero_iff_constant)
    then have s: "fsqrt (cov ys ys) = Fin 0" by (simp add: c3)
    have "\<exists>v. fdiv (Fin 0) (fsqrt (cov xs xs)) = Fin 0 \<or> fdiv (Fin 0) (fsqrt (cov xs xs)) = NaN"
      unfolding c2 using nn by (simp add: signed_inf_def not_less)
    then show ?thesis unfolding corrcoef_def c1 s by (auto simp: signed_inf_def)
  next
    case False
    with c have "constant_series xs" by simp
    then have "dev_prod xs xs = 0" by (simp add: dev_prod_zero_iff_constant)
    then have s: "fsqrt (cov xs xs) = Fin 0" by (simp add: c2)
    show ?thesis unfolding corrcoef_def c1 s by (simp add: signed_inf_def)
  qed
qed

lemma pearson_range: "pearson ps = NaN \<or> (\<exists>r. pearson ps = Fin r \<and> - 1 \<le> r \<and> r \<le> 1)"
proof (cases "ps = [] \<or> constant_series (map fst ps) \<or> constant_series (map snd ps)")
  case True
  then show ?thesis
    using corrcoef_degenerate[of "map fst ps" "map snd ps"] by (auto simp: pearson_def)
next
  case False
  then have a: "0 < dev_prod (map fst ps) (map fst ps)" and b: "0 < dev_prod (map snd ps) (map snd ps)"
    using dev_prod_self_nonneg[of "map fst ps"] dev_prod_self_nonneg[of "map snd ps"]
      dev_prod_zero_iff_constant[of "map fst ps"] dev_prod_zero_iff_constant[of "map snd ps"]
    by (simp_all add: less_le)
  have n: "2 \<le> length (map fst ps)" using False not_constant_length by blast
  show ?thesis
    using False corrcoef_nondegenerate[OF n _ a b] by (simp add: pearson_def)
qed


subsection \<open>The correlations of the sample tables\<close>

lemma corr_value:
  assumes "valid_pairs col ds = ps" "2 \<le> length ps"
    and "dev_prod (map fst ps) (map fst ps) = a" "dev_prod (map snd ps) (map snd ps) = b"
    and "dev_prod (map fst ps) (map snd ps) = c" "0 < a" "0 < b"
  shows "corr col ds = Fin (max (- 1) (min 1 (c / sqrt (a * b))))"
proof -
  have n: "2 \<le> length (map fst ps)" using assms(2) by simp
  have ne: "ps \<noteq> []" using assms(2) by auto
  have "corrcoef (map fst ps) (map snd ps) = Fin (max (- 1) (min 1 (c / sqrt (a * b))))"
    using corrcoef_nondegenerate[OF n, of "map snd ps"] assms(3-7) by simp
  then show ?thesis using ne by (simp add: corr_def pearson_def assms(1))
qed

lemma sqrt_square: "0 \<le> q \<Longrightarrow> sqrt (q * q) = q"
  by simp

lemma steady_rise_temp: "corr d_temperature steady_rise = Fin 1"
proof -
  have s: "sqrt (80000 * 800) = 8000" using sqrt_square[of 8000] by simp
  have "corr d_temperature steady_rise = Fin (max (- 1) (min 1 (8000 / sqrt (80000 * 800))))"
    by (rule corr_value[where ps = "[(100, 35), (300, 55), (500, 75)]"])
       (simp_all add: steady_rise_def day_def valid_pairs_def dev_prod_def avg_def)
  then show ?thesis by (simp only: s) simp
qed

lemma steady_rise_rain: "corr d_rain steady_rise = Fin 1"
proof -
  have s: "sqrt (80000 * 2) = 400" using sqrt_square[of 400] by simp
  have "corr d_rain steady_rise = Fin (max (- 1) (min 1 (400 / sqrt (80000 * 2))))"
    by (rule corr_value[where ps = "[(100, 0), (300, 1), (500, 2)]"])
       (simp_all add: steady_rise_def day_def valid_pairs_def dev_prod_def avg_def)
  then show ?thesis by (simp only: s) simp
qed

lemma mild_temp: "corr d_temperature mild = Fin (1 / 2)"
proof -
  have s: "sqrt (200 * 200) = 200" using sqrt_square[of 200] by simp
  have "corr d_temperature mild = Fin (max (- 1) (min 1 (100 / sqrt (200 * 200))))"
    by (rule corr_value[where ps = "[(10, 50), (0, 60), (20, 70)]"])
       (simp_all add: mild_def day_def valid_pairs_def dev_prod_def avg_def)
  then show ?thesis by (simp only: s) simp
qed

lemma mild_rain: "corr d_rain mild = Fin (- (1 / 2))"
proof -
  have s: "sqrt (200 * 2) = 20" using sqrt_square[of 20] by simp
  have "corr d_rain mild = Fin (max (- 1) (min 1 (- 10 / sqrt (200 * 2))))"
    by (rule corr_value[where ps = "[(10, 2), (0, 1), (20, 0)]"])
       (simp_all add: mild_def day_def valid_pairs_def dev_prod_def avg_def)
  then show ?thesis by (simp only: s) simp
qed

lemma peak_temp: "corr d_temperature peak = Fin 0"
proof -
  have "corr d_temperature peak = Fin (max (- 1) (min 1 (0 / sqrt (600 * 200))))"
    by (rule corr_value[where ps = "[(0, 50), (30, 60), (0, 70)]"])
       (simp_all add: peak_def day_def valid_pairs_def dev_prod_def avg_def)
  then show ?thesis by simp
qed

lemma peak_rain: "corr d_rain peak = Fin 0"
proof -
  have "corr d_rain peak = Fin (max (- 1) (min 1 (0 / sqrt (600 * 2))))"
    by (rule corr_value[where ps = "[(0, 0), (30, 1), (0, 2)]"])
       (simp_all add: peak_def day_def valid_pairs_def dev_prod_def avg_def)
  then show ?thesis by simp
qed

lemma flat_temp: "corr d_temperature flat_revenue = NaN"
proof -
  have v: "valid_pairs d_temperature flat_revenue = [(10, 50), (10, 60)]"
    by (simp add: flat_revenue_def day_def valid_pairs_def)
  have "corrcoef (map fst [(10, 50), (10, 60)]) (map snd [(10::real, 50::real), (10, 60)]) = NaN"
    by (rule corrcoef_degenerate) (simp_all add: constant_series_def)
  then show ?thesis by (simp add: corr_def pearson_def v)
qed

lemma flat_rain: "corr d_rain flat_revenue = NaN"
proof -
  have v: "valid_pairs d_rain flat_revenue = [(10, 0), (10, 1)]"
    by (simp add: flat_revenue_def day_def valid_pairs_def)
  have "corrcoef (map fst [(10, 0), (10, 1)]) (map snd [(10::real, 0::real), (10, 1)]) = NaN"
    by (rule corrcoef_degenerate) (simp_all add: constant_series_def)
  then show ?thesis by (simp add: corr_def pearson_def v)
qed

lemma warm_below_cold_temp: "\<exists>r. corr d_temperature warm_below_cold = Fin r \<and> 7 / 10 < r \<and> r \<le> 1"
proof -
  have "sqrt (102 * 1412) < 382" by (rule real_less_lsqrt) simp_all
  moreover have "0 < sqrt (102 * 1412)" by simp
  ultimately have q: "7 / 10 < 268 / sqrt (102 * 1412)"
    by (simp add: pos_less_divide_eq del: real_sqrt_mult real_sqrt_gt_0_iff)
  have "corr d_temperature warm_below_cold = Fin (max (- 1) (min 1 (268 / sqrt (102 * 1412))))"
    by (rule corr_value[where ps = "[(6, 39), (4, 71), (0, 40), (0, 40), (10, 70), (10, 70)]"])
       (simp_all add: warm_below_cold_def day_def valid_pairs_def dev_prod_def avg_def)
  then show ?thesis using q by (auto simp del: real_sqrt_mult)
qed

lemma corr_shape: "corr col ds = NaN \<or> (\<exists>r. corr col ds = Fin r)"
  using pearson_range[of "valid_pairs col ds"] by (auto simp: corr_def)

lemma col_less_iff: "col_less v c \<longleftrightarrow> (\<exists>a. v = Some a \<and> a < c)"
  by (simp add: col_less_def split: option.split)

lemma col_greater_iff: "col_greater v c \<longleftrightarrow> (\<exists>a. v = Some a \<and> c < a)"
  by (simp add: col_greater_def split: option.split)

lemma col_equal_iff: "col_equal v c \<longleftrightarrow> v = Some c"
  by (auto simp: col_equal_def split: option.split)


text \<open>Two numbers as the report prints them.\<close>

lemma fmt3_half: "fmt3 (Fin (1 / 2)) = ''0.500''"
  by (simp add: fmt3_def round_half_even_def Let_def)

lemma fmt3_negative: "fmt3 (Fin (- 0.70156)) = ''-0.702''"
  by (simp add: fmt3_def round_half_even_def Let_def)


section \<open>Range of the correlation\<close>







section \<open>Classification of the temperature correlation\<close>

text \<open>
  C3, as the code has it. A correlation above 0.70 is strong and comes with the mean
  revenue of the days below 40 degrees, the mean of the days above 70 degrees, the
  difference warm minus cold with its sign, and the percentage
  \<open>(warm / cold - 1) * 100\<close>; above 0.30 and up to 0.70 it is moderate; every other
  value, NaN included, is weak.
\<close>

theorem temperature_classification:
  "(\<forall>r. corr d_temperature ds = Fin r \<and> 7 / 10 < r \<longrightarrow>
        temperature_report ds
        = Strong (temp_cold ds) (temp_warm ds) (fsub (temp_warm ds) (temp_cold ds))
            (fmul (fsub (fdiv (temp_warm ds) (temp_cold ds)) (Fin 1)) (Fin 100)))
   \<and> (\<forall>r. corr d_temperature ds = Fin r \<and> 3 / 10 < r \<and> r \<le> 7 / 10 \<longrightarrow>
        temperature_report ds = Moderate)
   \<and> (corr d_temperature ds = NaN \<or> (\<exists>r. corr d_temperature ds = Fin r \<and> r \<le> 3 / 10) \<longrightarrow>
        temperature_report ds = Weak)
   \<and> (corr d_temperature ds = NaN \<or> (\<exists>r. corr d_temperature ds = Fin r))
   \<and> temp_cold ds
      = series_mean (map d_revenue (filter (\<lambda>d. \<exists>t. d_temperature d = Some t \<and> t < 40) ds))
   \<and> temp_warm ds
      = series_mean (map d_revenue (filter (\<lambda>d. \<exists>t. d_temperature d = Some t \<and> 70 < t) ds))
   \<and> (\<forall>c w. temp_cold ds = Fin c \<and> temp_warm ds = Fin w \<and> c \<noteq> 0 \<longrightarrow>
        fsub (temp_warm ds) (temp_cold ds) = Fin (w - c)
        \<and> fmul (fsub (fdiv (temp_warm ds) (temp_cold ds)) (Fin 1)) (Fin 100)
          = Fin ((w / c - 1) * 100))"
proof (intro conjI allI impI)
  fix r assume "corr d_temperature ds = Fin r \<and> 7 / 10 < r"
  then show "temperature_report ds
        = Strong (temp_cold ds) (temp_warm ds) (fsub (temp_warm ds) (temp_cold ds))
            (fmul (fsub (fdiv (temp_warm ds) (temp_cold ds)) (Fin 1)) (Fin 100))"
    by (simp add: temperature_report_def)
next
  fix r assume "corr d_temperature ds = Fin r \<and> 3 / 10 < r \<and> r \<le> 7 / 10"
  then show "temperature_report ds = Moderate" by (simp add: temperature_report_def)
next
  assume "corr d_temperature ds = NaN \<or> (\<exists>r. corr d_temperature ds = Fin r \<and> r \<le> 3 / 10)"
  then show "temperature_report ds = Weak" by (auto simp: temperature_report_def)
next
  show "corr d_temperature ds = NaN \<or> (\<exists>r. corr d_temperature ds = Fin r)" by (rule corr_shape)
  show "temp_cold ds
      = series_mean (map d_revenue (filter (\<lambda>d. \<exists>t. d_temperature d = Some t \<and> t < 40) ds))"
    by (simp add: temp_cold_def col_less_iff)
  show "temp_warm ds
      = series_mean (map d_revenue (filter (\<lambda>d. \<exists>t. d_temperature d = Some t \<and> 70 < t) ds))"
    by (simp add: temp_warm_def col_greater_iff)
next
  fix c w assume h: "temp_cold ds = Fin c \<and> temp_warm ds = Fin w \<and> c \<noteq> 0"
  then show "fsub (temp_warm ds) (temp_cold ds) = Fin (w - c)" by simp
  from h show "fmul (fsub (fdiv (temp_warm ds) (temp_cold ds)) (Fin 1)) (Fin 100)
          = Fin ((w / c - 1) * 100)" by simp
qed

text \<open>
  Revenue rising with the temperature from 100 at 35 degrees to 500 at 75 degrees is
  strong, with means 100 and 500, difference 400 and 400 percent; a correlation of one
  half is moderate; a correlation of zero and an undefined one are weak.
\<close>

theorem temperature_classification_witness:
  "temperature_report steady_rise = Strong (Fin 100) (Fin 500) (Fin 400) (Fin 400)
   \<and> temperature_report mild = Moderate
   \<and> temperature_report peak = Weak
   \<and> temperature_report flat_revenue = Weak"
proof -
  have c: "temp_cold steady_rise = Fin 100"
    by (simp add: temp_cold_def steady_rise_def day_def col_less_def series_mean_def)
  have w: "temp_warm steady_rise = Fin 500"
    by (simp add: temp_warm_def steady_rise_def day_def col_greater_def series_mean_def)
  have s: "corr d_temperature steady_rise = Fin 1 \<and> (7::real) / 10 < 1"
    by (simp add: steady_rise_temp)
  have cw: "temp_cold steady_rise = Fin 100 \<and> temp_warm steady_rise = Fin 500 \<and> (100::real) \<noteq> 0"
    using c w by simp
  have m: "corr d_temperature mild = Fin (1 / 2) \<and> (3::real) / 10 < 1 / 2 \<and> (1::real) / 2 \<le> 7 / 10"
    by (simp add: mild_temp)
  have p: "corr d_temperature peak = NaN \<or> (\<exists>r. corr d_temperature peak = Fin r \<and> r \<le> 3 / 10)"
    by (simp add: peak_temp)
  have f: "corr d_temperature flat_revenue = NaN \<or> (\<exists>r. corr d_temperature flat_revenue = Fin r \<and> r \<le> 3 / 10)"
    by (simp add: flat_temp)
  have 1: "temperature_report steady_rise
        = Strong (temp_cold steady_rise) (temp_warm steady_rise)
            (fsub (temp_warm steady_rise) (temp_cold steady_rise))
            (fmul (fsub (fdiv (temp_warm steady_rise) (temp_cold steady_rise)) (Fin 1)) (Fin 100))"
    using temperature_classification[of steady_rise] s by blast
  have 2: "fsub (temp_warm steady_rise) (temp_cold steady_rise) = Fin (500 - 100)
        \<and> fmul (fsub (fdiv (temp_warm steady_rise) (temp_cold steady_rise)) (Fin 1)) (Fin 100)
          = Fin ((500 / 100 - 1) * 100)"
    using temperature_classification[of steady_rise] cw by blast
  have 3: "temperature_report mild = Moderate"
    using temperature_classification[of mild] m by blast
  have 4: "temperature_report peak = Weak"
    using temperature_classification[of peak] p by blast
  have 5: "temperature_report flat_revenue = Weak"
    using temperature_classification[of flat_revenue] f by blast
  show ?thesis using 1 2 3 4 5 c w by simp
qed

text \<open>
  C3 as stated fails on six days whose correlation is above 0.70 while the one cold day
  earned 6 and the one warm day 4: the difference reported is \<open>-2\<close>, the absolute
  difference is 2.
\<close>

theorem warm_minus_cold_is_signed:
  "temperature_report warm_below_cold = Strong (Fin 6) (Fin 4) (Fin (- 2)) (Fin (- (100 / 3)))
   \<and> fabs (fsub (temp_warm warm_below_cold) (temp_cold warm_below_cold)) = Fin 2"
proof -
  have c: "temp_cold warm_below_cold = Fin 6"
    by (simp add: temp_cold_def warm_below_cold_def day_def col_less_def series_mean_def)
  have w: "temp_warm warm_below_cold = Fin 4"
    by (simp add: temp_warm_def warm_below_cold_def day_def col_greater_def series_mean_def)
  obtain r where r: "corr d_temperature warm_below_cold = Fin r" "7 / 10 < r"
    using warm_below_cold_temp by blast
  show ?thesis using r c w by (simp add: temperature_report_def)
qed


section \<open>Classification of the rain correlation\<close>

text \<open>
  C4. A rain correlation of absolute value below 0.20 is weak and comes with the mean
  revenue of the days with rain, the mean of the days with rain 0 and the absolute value
  of their difference; otherwise a negative correlation is negative; every other value is
  positive. Only the weak case carries the two means.
\<close>

theorem rain_classification:
  "(\<forall>r. corr d_rain ds = Fin r \<and> \<bar>r\<bar> < 2 / 10 \<longrightarrow>
        rain_report ds = Rain_Weak (rainy ds) (no_rain ds) (fabs (fsub (no_rain ds) (rainy ds))))
   \<and> (\<forall>r. corr d_rain ds = Fin r \<and> \<not> \<bar>r\<bar> < 2 / 10 \<and> r < 0 \<longrightarrow> rain_report ds = Rain_Negative)
   \<and> (corr d_rain ds = NaN \<or> (\<exists>r. corr d_rain ds = Fin r \<and> \<not> \<bar>r\<bar> < 2 / 10 \<and> \<not> r < 0) \<longrightarrow>
        rain_report ds = Rain_Positive)
   \<and> (corr d_rain ds = NaN \<or> (\<exists>r. corr d_rain ds = Fin r))
   \<and> rainy ds = series_mean (map d_revenue (filter (\<lambda>d. \<exists>a. d_rain d = Some a \<and> 0 < a) ds))
   \<and> no_rain ds = series_mean (map d_revenue (filter (\<lambda>d. d_rain d = Some 0) ds))
   \<and> (\<forall>a b. rainy ds = Fin a \<and> no_rain ds = Fin b \<longrightarrow>
        fabs (fsub (no_rain ds) (rainy ds)) = Fin \<bar>b - a\<bar>)"
proof (intro conjI allI impI)
  fix r assume "corr d_rain ds = Fin r \<and> \<bar>r\<bar> < 2 / 10"
  then show "rain_report ds = Rain_Weak (rainy ds) (no_rain ds) (fabs (fsub (no_rain ds) (rainy ds)))"
    by (simp add: rain_report_def)
next
  fix r assume "corr d_rain ds = Fin r \<and> \<not> \<bar>r\<bar> < 2 / 10 \<and> r < 0"
  then show "rain_report ds = Rain_Negative" by (auto simp: rain_report_def abs_if split: if_splits)
next
  assume "corr d_rain ds = NaN \<or> (\<exists>r. corr d_rain ds = Fin r \<and> \<not> \<bar>r\<bar> < 2 / 10 \<and> \<not> r < 0)"
  then show "rain_report ds = Rain_Positive" by (auto simp: rain_report_def)
next
  show "corr d_rain ds = NaN \<or> (\<exists>r. corr d_rain ds = Fin r)" by (rule corr_shape)
  show "rainy ds = series_mean (map d_revenue (filter (\<lambda>d. \<exists>a. d_rain d = Some a \<and> 0 < a) ds))"
    by (simp add: rainy_def col_greater_iff)
  show "no_rain ds = series_mean (map d_revenue (filter (\<lambda>d. d_rain d = Some 0) ds))"
    by (simp add: no_rain_def col_equal_iff)
next
  fix a b assume "rainy ds = Fin a \<and> no_rain ds = Fin b"
  then show "fabs (fsub (no_rain ds) (rainy ds)) = Fin \<bar>b - a\<bar>" by simp
qed

text \<open>
  A correlation of zero is weak, with means 15 and 0 and difference 15; minus one half
  is negative; one is positive, and so is an undefined correlation.
\<close>

theorem rain_classification_witness:
  "rain_report peak = Rain_Weak (Fin 15) (Fin 0) (Fin 15)
   \<and> rain_report mild = Rain_Negative
   \<and> rain_report steady_rise = Rain_Positive
   \<and> rain_report flat_revenue = Rain_Positive"
proof -
  have a: "rainy peak = Fin 15"
    by (simp add: rainy_def peak_def day_def col_greater_def series_mean_def)
  have b: "no_rain peak = Fin 0"
    by (simp add: no_rain_def peak_def day_def col_equal_def series_mean_def)
  have p: "corr d_rain peak = Fin 0 \<and> \<bar>0::real\<bar> < 2 / 10" by (simp add: peak_rain)
  have ab: "rainy peak = Fin 15 \<and> no_rain peak = Fin 0" using a b by simp
  have m: "corr d_rain mild = Fin (- (1 / 2)) \<and> \<not> \<bar>- (1 / 2) :: real\<bar> < 2 / 10 \<and> - (1 / 2) < (0::real)"
    by (simp add: mild_rain)
  have s: "corr d_rain steady_rise = NaN
           \<or> (\<exists>r. corr d_rain steady_rise = Fin r \<and> \<not> \<bar>r\<bar> < 2 / 10 \<and> \<not> r < 0)"
    by (simp add: steady_rise_rain)
  have f: "corr d_rain flat_revenue = NaN
           \<or> (\<exists>r. corr d_rain flat_revenue = Fin r \<and> \<not> \<bar>r\<bar> < 2 / 10 \<and> \<not> r < 0)"
    by (simp add: flat_rain)
  have 1: "rain_report peak = Rain_Weak (rainy peak) (no_rain peak) (fabs (fsub (no_rain peak) (rainy peak)))"
    using rain_classification[of peak] p by blast
  have 2: "fabs (fsub (no_rain peak) (rainy peak)) = Fin \<bar>0 - 15\<bar>"
    using rain_classification[of peak] ab by blast
  have 3: "rain_report mild = Rain_Negative"
    using rain_classification[of mild] m by blast
  have 4: "rain_report steady_rise = Rain_Positive"
    using rain_classification[of steady_rise] s by blast
  have 5: "rain_report flat_revenue = Rain_Positive"
    using rain_classification[of flat_revenue] f by blast
  show ?thesis using 1 2 3 4 5 a b by simp
qed


end
